theory Spec2Isabelle
  imports Complex_Main
begin

section \<open>JavaScript strings\<close>

text \<open>
  A string is the list of its code units. The model covers the code units below 256
  (ASCII and Latin-1), which is where Isabelle's \<open>char\<close> lives; on them the functions
  below compute what \<open>String.prototype.toLowerCase\<close>, \<open>trim\<close>, \<open>includes\<close>,
  \<open>startsWith\<close>, \<open>endsWith\<close>, \<open>split("\n")\<close> and \<open>Array.prototype.join\<close> compute.
\<close>

definition upper_chars :: string where
  "upper_chars = ''ABCDEFGHIJKLMNOPQRSTUVWXYZ'' @
     [CHR 0xC0, CHR 0xC1, CHR 0xC2, CHR 0xC3, CHR 0xC4, CHR 0xC5, CHR 0xC6, CHR 0xC7,
      CHR 0xC8, CHR 0xC9, CHR 0xCA, CHR 0xCB, CHR 0xCC, CHR 0xCD, CHR 0xCE, CHR 0xCF,
      CHR 0xD0, CHR 0xD1, CHR 0xD2, CHR 0xD3, CHR 0xD4, CHR 0xD5, CHR 0xD6,
      CHR 0xD8, CHR 0xD9, CHR 0xDA, CHR 0xDB, CHR 0xDC, CHR 0xDD, CHR 0xDE]"

definition lower_chars :: string where
  "lower_chars = ''abcdefghijklmnopqrstuvwxyz'' @
     [CHR 0xE0, CHR 0xE1, CHR 0xE2, CHR 0xE3, CHR 0xE4, CHR 0xE5, CHR 0xE6, CHR 0xE7,
      CHR 0xE8, CHR 0xE9, CHR 0xEA, CHR 0xEB, CHR 0xEC, CHR 0xED, CHR 0xEE, CHR 0xEF,
      CHR 0xF0, CHR 0xF1, CHR 0xF2, CHR 0xF3, CHR 0xF4, CHR 0xF5, CHR 0xF6,
      CHR 0xF8, CHR 0xF9, CHR 0xFA, CHR 0xFB, CHR 0xFC, CHR 0xFD, CHR 0xFE]"

definition toLowerCase_char :: "char \<Rightarrow> char" where
  "toLowerCase_char c =
     (case map_of (zip upper_chars lower_chars) c of Some l \<Rightarrow> l | None \<Rightarrow> c)"

definition toLowerCase :: "string \<Rightarrow> string" where
  "toLowerCase s = map toLowerCase_char s"

text \<open>White space of \<open>trim\<close>: TAB, LF, VT, FF, CR, SP and NBSP.\<close>

definition isWhiteSpace :: "char \<Rightarrow> bool" where
  "isWhiteSpace c =
     (c \<in> set [CHR 0x09, CHR 0x0A, CHR 0x0B, CHR 0x0C, CHR 0x0D, CHR 0x20, CHR 0xA0])"

definition trim :: "string \<Rightarrow> string" where
  "trim s = rev (dropWhile isWhiteSpace (rev (dropWhile isWhiteSpace s)))"

text \<open>\<open>startsWith s p\<close> is \<open>s.startsWith(p)\<close>, \<open>str_includes s p\<close> is \<open>s.includes(p)\<close>.\<close>

fun startsWith :: "string \<Rightarrow> string \<Rightarrow> bool" where
  "startsWith s [] = True"
| "startsWith [] (p # ps) = False"
| "startsWith (c # cs) (p # ps) = (c = p \<and> startsWith cs ps)"

fun str_includes :: "string \<Rightarrow> string \<Rightarrow> bool" where
  "str_includes [] p = (p = [])"
| "str_includes (c # cs) p = (startsWith (c # cs) p \<or> str_includes cs p)"

definition endsWith :: "string \<Rightarrow> string \<Rightarrow> bool" where
  "endsWith s p = startsWith (rev s) (rev p)"

text \<open>\<open>join sep xs\<close> is \<open>xs.join(sep)\<close>.\<close>

fun join :: "string \<Rightarrow> string list \<Rightarrow> string" where
  "join sep [] = []"
| "join sep [x] = x"
| "join sep (x # y # ys) = x @ sep @ join sep (y # ys)"

section \<open>The evaluation script: comparing a human review with the model's analysis\<close>

record SensitiveInfo =
  ssn :: bool
  driversLicense :: bool
  financial :: bool
  health :: bool
  criminalHistory :: bool

record HumanReview =
  hr_url :: string
  hr_isForm :: string
  hr_formType :: string
  hr_sensitiveInfo :: string
  hr_reviewer :: string
  hr_notes :: string

text \<open>
  \<open>llm_isForm\<close> is one of \<open>"Yes"\<close>, \<open>"No"\<close>, \<open>"Error"\<close> in the source's type.
  The interface declares \<open>formType\<close> and \<open>notes\<close> as strings, and \<open>compare\<close> is
  modelled at that type (\<open>string LLMAnalysis\<close>); the script's \<open>normalizeResponse\<close>
  passes the reply's values through unchecked, so what its \<open>analyzePdf\<close> builds is a
  \<open>json LLMAnalysis\<close> (see below).
\<close>

record 'v LLMAnalysis =
  llm_url :: string
  llm_isForm :: string
  llm_formType :: 'v
  llm_sensitiveInfo :: SensitiveInfo
  llm_notes :: 'v
  llm_error :: "string option"

record ComparisonResult =
  cr_url :: string
  humanIsForm :: string
  llmIsForm :: string
  isFormMatch :: bool
  humanFormType :: string
  llmFormType :: string
  formTypeMatch :: bool
  humanSensitive :: string
  llmSensitive :: string
  sensitiveMatch :: bool
  allMatch :: bool
  humanReviewer :: string
  humanNotes :: string
  llmNotes :: string

text \<open>The script's top-level \<open>normalizeFormType\<close> (the human side of the comparison).\<close>

definition normalizeFormType :: "string \<Rightarrow> string" where
  "normalizeFormType type =
     (if type = [] then []
      else let t = trim (toLowerCase type)
           in if str_includes t ''fillable'' then ''Fillable PDF''
              else if str_includes t ''non-fillable'' \<or> str_includes t ''nonfillable''
                   then ''Non-Fillable PDF''
              else if t = ''n/a'' \<or> t = ''na'' then ''N/A''
              else type)"

definition formatSensitiveInfo :: "SensitiveInfo \<Rightarrow> string" where
  "formatSensitiveInfo info =
     (let items = (if ssn info then [''SSN''] else [])
                @ (if driversLicense info then [''DL#''] else [])
                @ (if financial info then [''Financial''] else [])
                @ (if health info then [''Health''] else [])
                @ (if criminalHistory info then [''Criminal''] else [])
      in if length items > 0 then join '', '' items else ''No'')"

definition normalizeSensitiveForComparison :: "string \<Rightarrow> string \<Rightarrow> bool" where
  "normalizeSensitiveForComparison human llm =
     (let humanLower = trim (toLowerCase human);
          llmLower = trim (toLowerCase llm)
      in if humanLower = ''no'' \<or> humanLower = []
         then llmLower = ''no'' \<or> llmLower = []
         else if humanLower = ''yes'' \<or> str_includes humanLower ''ssn'' \<or> str_includes humanLower ''dl''
         then llmLower \<noteq> ''no'' \<and> llmLower \<noteq> []
         else humanLower = llmLower)"

definition compare :: "HumanReview \<Rightarrow> string LLMAnalysis \<Rightarrow> ComparisonResult" where
  "compare human llm =
     (let humanFormType' = normalizeFormType (hr_formType human);
          llmFormType' = normalizeFormType (llm_formType llm);
          llmSensitive' = formatSensitiveInfo (llm_sensitiveInfo llm);
          isFormMatch' = (toLowerCase (hr_isForm human) = toLowerCase (llm_isForm llm));
          formTypeMatch' = (toLowerCase humanFormType' = toLowerCase llmFormType'
                            \<or> (toLowerCase (hr_isForm human) = ''no'' \<and> llm_isForm llm = ''No''));
          sensitiveMatch' = normalizeSensitiveForComparison (hr_sensitiveInfo human) llmSensitive'
      in \<lparr> cr_url = hr_url human,
           humanIsForm = hr_isForm human,
           llmIsForm = llm_isForm llm,
           isFormMatch = isFormMatch',
           humanFormType = hr_formType human,
           llmFormType = llm_formType llm,
           formTypeMatch = formTypeMatch',
           humanSensitive = hr_sensitiveInfo human,
           llmSensitive = llmSensitive',
           sensitiveMatch = sensitiveMatch',
           allMatch = (isFormMatch' \<and> formTypeMatch' \<and> sensitiveMatch'),
           humanReviewer = hr_reviewer human,
           humanNotes = hr_notes human,
           llmNotes = llm_notes llm \<rparr>)"

section \<open>Values of the oracle's reply\<close>

text \<open>
  What \<open>JSON.parse\<close> returns. Numbers are the finite doubles, taken as the reals they
  denote. An object is the list of its own properties, one pair per key.
  \<open>None\<close> of type \<open>json option\<close> is \<open>undefined\<close>.
\<close>

datatype json =
    JNull
  | JBool bool
  | JNum real
  | JStr string
  | JArr "json list"
  | JObj "(string \<times> json) list"

text \<open>
  An exception is a thrown \<open>Error\<close> (with its message) or any other thrown value (with
  its \<open>String(...)\<close> rendering); \<open>TypeError\<close> and \<open>SyntaxError\<close> are \<open>Error\<close>s.
\<close>

datatype error = Error string | Thrown string

fun error_message :: "error \<Rightarrow> string" where
  "error_message (Error m) = m"
| "error_message (Thrown s) = s"

text \<open>
  \<open>get_prop v k\<close> is \<open>v.k\<close> for a value \<open>v\<close> other than \<open>null\<close> and a key that no
  prototype defines (all keys read here are such): a primitive or an array has no such
  property. Reading a property of \<open>null\<close> throws; the callers test for \<open>null\<close>
  before they read. \<open>opt_prop v k\<close> is \<open>v?.k\<close>.
\<close>

fun get_prop :: "json \<Rightarrow> string \<Rightarrow> json option" where
  "get_prop (JObj kvs) k = map_of kvs k"
| "get_prop v k = None"

fun opt_prop :: "json option \<Rightarrow> string \<Rightarrow> json option" where
  "opt_prop None k = None"
| "opt_prop (Some v) k = get_prop v k"

definition null_read :: "string \<Rightarrow> error" where
  "null_read k =
     Error (''Cannot read properties of null (reading '' @ [CHR 0x27] @ k @ [CHR 0x27] @ '')'')"

text \<open>\<open>Boolean(v)\<close>, the truthiness that \<open>!\<close>, \<open>||\<close> and \<open>if\<close> use.\<close>

fun Boolean :: "json option \<Rightarrow> bool" where
  "Boolean None = False"
| "Boolean (Some JNull) = False"
| "Boolean (Some (JBool b)) = b"
| "Boolean (Some (JNum n)) = (n \<noteq> 0)"
| "Boolean (Some (JStr s)) = (s \<noteq> [])"
| "Boolean (Some (JArr vs)) = True"
| "Boolean (Some (JObj kvs)) = True"

section \<open>The analyzer: normalizing the reply\<close>

text \<open>
  \<open>FormAnalyzer.normalizeFormType\<close> of \<open>analyze.ts\<close> at its declared type, a string:
  the rules in the source's order.
\<close>

definition FormAnalyzer_normalizeFormType :: "string \<Rightarrow> string" where
  "FormAnalyzer_normalizeFormType type =
     (if type = [] then ''N/A''
      else let normalized = trim (toLowerCase type)
           in if str_includes normalized ''fillable'' \<and> str_includes normalized ''pdf''
                then ''Fillable PDF''
              else if str_includes normalized ''non-fillable'' \<or> str_includes normalized ''nonfillable''
                then ''Non-Fillable PDF''
              else if str_includes normalized ''google'' then ''Google form''
              else if str_includes normalized ''airtable'' then ''Airtable form''
              else if str_includes normalized ''office'' \<or> str_includes normalized ''excel''
                then ''MS Office form''
              else if str_includes normalized ''word'' then ''MS Word document''
              else if str_includes normalized ''phone'' then ''Phone''
              else if str_includes normalized ''email'' then ''Email''
              else if str_includes normalized ''digital'' \<or> str_includes normalized ''printable''
                then ''Non-Fillable PDF''
              else if normalized = ''n/a'' \<or> normalized = ''not a form'' then ''N/A''
              else if str_includes normalized ''pdf'' then ''Non-Fillable PDF''
              else ''Unknown'')"

text \<open>
  The same method on what the reply really holds (\<open>parsed.formType\<close> is untyped): a
  falsy value gives \<open>"N/A"\<close>, a string goes through the rules, and any other truthy
  value has no \<open>toLowerCase\<close>, so the call throws a \<open>TypeError\<close>.
\<close>

fun FormAnalyzer_normalizeFormType_any :: "json option \<Rightarrow> error + string" where
  "FormAnalyzer_normalizeFormType_any (Some (JStr s)) = Inr (FormAnalyzer_normalizeFormType s)"
| "FormAnalyzer_normalizeFormType_any v =
     (if \<not> Boolean v then Inr ''N/A''
      else Inl (Error ''type.toLowerCase is not a function''))"

text \<open>The fragment \<open>normalizeResponse\<close> returns (a \<open>Partial<FormAnalysis>\<close>).\<close>

record NormalizedResponse =
  nr_isForm :: string
  nr_formType :: string
  nr_sensitiveInfo :: SensitiveInfo
  nr_sensitiveInfoSummary :: string
  nr_confidence :: real
  nr_pageCount :: real
  nr_notes :: json

definition sensitiveInfo_of :: "json option \<Rightarrow> SensitiveInfo" where
  "sensitiveInfo_of si =
     \<lparr> ssn = Boolean (opt_prop si ''ssn''),
       driversLicense = Boolean (opt_prop si ''driversLicense''),
       financial = Boolean (opt_prop si ''financial''),
       health = Boolean (opt_prop si ''health''),
       criminalHistory = Boolean (opt_prop si ''criminalHistory'') \<rparr>"

definition sensitiveItems :: "SensitiveInfo \<Rightarrow> string list" where
  "sensitiveItems info =
       (if ssn info then [''SSN''] else [])
     @ (if driversLicense info then [''DL#''] else [])
     @ (if financial info then [''Financial''] else [])
     @ (if health info then [''Health''] else [])
     @ (if criminalHistory info then [''Criminal''] else [])"

text \<open>\<open>typeof v === "number" ? v : d\<close>.\<close>

fun number_or :: "json option \<Rightarrow> real \<Rightarrow> real" where
  "number_or (Some (JNum n)) d = n"
| "number_or v d = d"

text \<open>\<open>v || ""\<close>: the value itself when it is truthy, whatever its type.\<close>

fun or_empty :: "json option \<Rightarrow> json" where
  "or_empty None = JStr []"
| "or_empty (Some v) = (if Boolean (Some v) then v else JStr [])"

definition normalizeResponse :: "json \<Rightarrow> error + NormalizedResponse" where
  "normalizeResponse parsed =
     (if parsed = JNull then Inl (null_read ''sensitiveInfo'')
      else
        let sensitiveInfo = sensitiveInfo_of (get_prop parsed ''sensitiveInfo'');
            items = sensitiveItems sensitiveInfo
        in (case FormAnalyzer_normalizeFormType_any (get_prop parsed ''formType'') of
              Inl e \<Rightarrow> Inl e
            | Inr formType \<Rightarrow>
                Inr \<lparr> nr_isForm = (if get_prop parsed ''isForm'' = Some (JStr ''Yes'') then ''Yes'' else ''No''),
                      nr_formType = formType,
                      nr_sensitiveInfo = sensitiveInfo,
                      nr_sensitiveInfoSummary =
                        (if length items > 0 then join '', '' items else ''None''),
                      nr_confidence = number_or (get_prop parsed ''confidence'') 0.5,
                      nr_pageCount = number_or (get_prop parsed ''pageCount'') 0,
                      nr_notes = or_empty (get_prop parsed ''notes'') \<rparr>))"

text \<open>
  A fragment handed back to \<open>normalizeResponse\<close>: the object with the fragment's seven
  properties.
\<close>

definition fragment_object :: "NormalizedResponse \<Rightarrow> json" where
  "fragment_object f =
     JObj [(''isForm'', JStr (nr_isForm f)),
           (''formType'', JStr (nr_formType f)),
           (''sensitiveInfo'',
              JObj [(''ssn'', JBool (ssn (nr_sensitiveInfo f))),
                    (''driversLicense'', JBool (driversLicense (nr_sensitiveInfo f))),
                    (''financial'', JBool (financial (nr_sensitiveInfo f))),
                    (''health'', JBool (health (nr_sensitiveInfo f))),
                    (''criminalHistory'', JBool (criminalHistory (nr_sensitiveInfo f)))]),
           (''sensitiveInfoSummary'', JStr (nr_sensitiveInfoSummary f)),
           (''confidence'', JNum (nr_confidence f)),
           (''pageCount'', JNum (nr_pageCount f)),
           (''notes'', nr_notes f)]"

text \<open>The canonical vocabulary: \<open>FORM_TYPES\<close>, and the two values outside it.\<close>

definition FORM_TYPES :: "string list" where
  "FORM_TYPES = [''Fillable PDF'', ''Non-Fillable PDF'', ''Google form'', ''MS Office form'',
                 ''MS Word document'', ''Airtable form'', ''Phone'', ''Email'']"

definition canonical_formType :: "string \<Rightarrow> bool" where
  "canonical_formType t = (t \<in> set (FORM_TYPES @ [''N/A'', ''Unknown'']))"

definition canonical_fragment :: "NormalizedResponse \<Rightarrow> bool" where
  "canonical_fragment f =
     ((nr_isForm f = ''Yes'' \<or> nr_isForm f = ''No'')
      \<and> canonical_formType (nr_formType f)
      \<and> nr_sensitiveInfoSummary f =
          (if length (sensitiveItems (nr_sensitiveInfo f)) > 0
           then join '', '' (sensitiveItems (nr_sensitiveInfo f)) else ''None'')
      \<and> (case nr_notes f of JStr s \<Rightarrow> True | _ \<Rightarrow> False))"

section \<open>The analyzer: the external calls\<close>

text \<open>
  The calls that leave the process are parameters: each returns its value or the
  exception it throws. \<open>files_get name k\<close> is the answer to the \<open>k\<close>-th call of
  \<open>ai.files.get\<close> for one upload (the first call is number 0), so the state may change
  from call to call. \<open>generateContent\<close> takes the model, the file's URI and MIME type
  and the prompt, and returns \<open>response.text\<close>; an exception of \<open>createPartFromUri\<close>,
  which is given the same URI and MIME type right before, counts as one of this call.
  \<open>JSON_parse\<close> is \<open>JSON.parse\<close>.
  \<open>elapsed_ms\<close> is the difference of the two clock readings of \<open>analyzePdf\<close>.
\<close>

record Response =
  ok :: bool
  status :: nat
  statusText :: string
  arrayBuffer :: "error + nat"

record File =
  file_name :: "string option"
  file_uri :: "string option"
  file_mimeType :: "string option"
  file_state :: "string option"

record env =
  fetch :: "string \<Rightarrow> error + Response"
  URL_pathname :: "string \<Rightarrow> error + string"
  files_upload :: "string \<Rightarrow> string \<Rightarrow> error + File"
  files_get :: "string option \<Rightarrow> nat \<Rightarrow> error + File"
  files_delete :: "string option \<Rightarrow> error + unit"
  generateContent :: "string \<Rightarrow> string \<Rightarrow> string \<Rightarrow> string \<Rightarrow> error + string option"
  JSON_parse :: "string \<Rightarrow> error + json"
  elapsed_ms :: "string \<Rightarrow> nat"

text \<open>Decimal rendering of a number in a template string.\<close>

fun show_nat :: "nat \<Rightarrow> string" where
  "show_nat n =
     (if n < 10 then [char_of (48 + n)]
      else show_nat (n div 10) @ [char_of (48 + n mod 10)])"

declare show_nat.simps [simp del]

text \<open>\<open>split_on c s\<close> is \<open>s.split(c)\<close> for a separator of one character.\<close>

fun split_on :: "char \<Rightarrow> string \<Rightarrow> string list" where
  "split_on c [] = [[]]"
| "split_on c (x # xs) =
     (if x = c then [] # split_on c xs
      else (case split_on c xs of
              [] \<Rightarrow> [[x]]
            | l # ls \<Rightarrow> (x # l) # ls))"

text \<open>
  The polling loop of \<open>uploadPdfFromUrl\<close>: \<open>getFile\<close> is the last answer, \<open>attempts\<close>
  the counter, \<open>slept\<close> the time in ms that the loop has waited so far. A round waits
  2000 ms, calls \<open>ai.files.get\<close> again and adds one to the counter. The loop returns the
  last answer (or the exception of a call), the counter and the time waited.
\<close>

function poll :: "env \<Rightarrow> string option \<Rightarrow> File \<Rightarrow> nat \<Rightarrow> nat \<Rightarrow> (error + File) \<times> nat \<times> nat" where
  "poll e name getFile attempts slept =
     (if file_state getFile = Some ''PROCESSING'' \<and> attempts < 30
      then (case files_get e name (Suc attempts) of
              Inl x \<Rightarrow> (Inl x, attempts, slept + 2000)
            | Inr getFile' \<Rightarrow> poll e name getFile' (Suc attempts) (slept + 2000))
      else (Inr getFile, attempts, slept))"
  by pat_completeness auto
termination
  by (relation "measure (\<lambda>(e, name, getFile, attempts, slept). 30 - attempts)") auto

declare poll.simps [simp del]

definition displayName_of :: "string \<Rightarrow> string" where
  "displayName_of urlPath =
     (let l = last (split_on CHR ''/'' urlPath) in if l = [] then ''document.pdf'' else l)"

text \<open>
  \<open>uploadPdfFromUrl\<close>: the file after polling and the size in KB
  (\<open>Math.round(byteLength / 1024)\<close>), or the exception; and, beside this outcome, the
  time in ms that the step has spent waiting in the polling loop.
\<close>

definition uploadPdfFromUrl :: "env \<Rightarrow> string \<Rightarrow> (error + (File \<times> nat)) \<times> nat" where
  "uploadPdfFromUrl e url =
     (case fetch e url of
        Inl x \<Rightarrow> (Inl x, 0)
      | Inr response \<Rightarrow>
          if \<not> ok response
          then (Inl (Error (''Failed to download: '' @ show_nat (status response) @ '' ''
                            @ statusText response)), 0)
          else (case arrayBuffer response of
                  Inl x \<Rightarrow> (Inl x, 0)
                | Inr byteLength \<Rightarrow>
                    let fileSizeKB = (byteLength + 512) div 1024
                    in (case URL_pathname e url of
                          Inl x \<Rightarrow> (Inl x, 0)
                        | Inr urlPath \<Rightarrow>
                            (case files_upload e url (displayName_of urlPath) of
                               Inl x \<Rightarrow> (Inl x, 0)
                             | Inr file \<Rightarrow>
                                 (case files_get e (file_name file) 0 of
                                    Inl x \<Rightarrow> (Inl x, 0)
                                  | Inr getFile \<Rightarrow>
                                      (case poll e (file_name file) getFile 0 0 of
                                         (Inl x, attempts, slept) \<Rightarrow> (Inl x, slept)
                                       | (Inr getFile', attempts, slept) \<Rightarrow>
                                           if file_state getFile' = Some ''FAILED''
                                           then (Inl (Error ''Gemini file processing failed''), slept)
                                           else (Inr (getFile', fileSizeKB), slept)))))))"

section \<open>The analyzer: reading the reply\<close>

text \<open>
  \<open>find_sub p s\<close> cuts \<open>s\<close> at the first occurrence of \<open>p\<close>: the text before it and
  the text after it.
\<close>

fun find_sub :: "string \<Rightarrow> string \<Rightarrow> (string \<times> string) option" where
  "find_sub p [] = (if p = [] then Some ([], []) else None)"
| "find_sub p (c # cs) =
     (if startsWith (c # cs) p then Some ([], drop (length p) (c # cs))
      else map_option (\<lambda>(b, a). (c # b, a)) (find_sub p cs))"

text \<open>
  The first capture group of the fence pattern (the json fence, white space, a lazy
  body, white space, the closing fence) on \<open>text\<close>: the match starts at the first
  opening fence and ends at the first closing fence after it, and the group is what lies
  between, without the white space on either side (white space holds no backquote).
\<close>

definition fence :: string where
  "fence = [CHR 0x60, CHR 0x60, CHR 0x60]"

definition matchJsonFence :: "string \<Rightarrow> string option" where
  "matchJsonFence text =
     (case find_sub (fence @ ''json'') text of
        None \<Rightarrow> None
      | Some (before, rest) \<Rightarrow>
          (case find_sub fence rest of
             None \<Rightarrow> None
           | Some (body, after) \<Rightarrow> Some (trim body)))"

text \<open>
  The match of the brace pattern (an opening brace, anything, greedily, a closing
  brace): from the first opening brace to the last closing brace after it.
\<close>

definition matchBraces :: "string \<Rightarrow> string option" where
  "matchBraces text =
     (let t = dropWhile (\<lambda>c. c \<noteq> CHR ''{'') text;
          r = rev (dropWhile (\<lambda>c. c \<noteq> CHR ''}'') (rev t))
      in if r = [] then None else Some r)"

definition parse_reply :: "env \<Rightarrow> string \<Rightarrow> error + json" where
  "parse_reply e text =
     (case matchJsonFence text of
        None \<Rightarrow>
          (case matchBraces text of
             None \<Rightarrow> Inl (Error ''Could not parse JSON from response'')
           | Some directMatch \<Rightarrow> JSON_parse e directMatch)
      | Some jsonMatch \<Rightarrow> JSON_parse e jsonMatch)"

section \<open>The analyzer: one document, and the batch\<close>

record FormAnalysis =
  fa_url :: string
  fa_isForm :: string
  fa_formType :: string
  fa_sensitiveInfo :: SensitiveInfo
  fa_sensitiveInfoSummary :: string
  fa_confidence :: real
  fa_pageCount :: real
  fa_fileSizeKB :: nat
  fa_processingTimeSec :: nat
  fa_notes :: json
  fa_error :: "string option"

definition no_sensitiveInfo :: SensitiveInfo where
  "no_sensitiveInfo =
     \<lparr> ssn = False, driversLicense = False, financial = False, health = False,
       criminalHistory = False \<rparr>"

definition model :: string where
  "model = ''gemini-2.5-flash''"

definition initial_result :: "string \<Rightarrow> FormAnalysis" where
  "initial_result u =
     \<lparr> fa_url = u, fa_isForm = [], fa_formType = ''N/A'',
       fa_sensitiveInfo = no_sensitiveInfo, fa_sensitiveInfoSummary = [],
       fa_confidence = 0, fa_pageCount = 0, fa_fileSizeKB = 0, fa_processingTimeSec = 0,
       fa_notes = JStr [], fa_error = None \<rparr>"

text \<open>\<open>Object.assign(result, fragment)\<close>.\<close>

definition assign :: "FormAnalysis \<Rightarrow> NormalizedResponse \<Rightarrow> FormAnalysis" where
  "assign result f =
     result \<lparr> fa_isForm := nr_isForm f, fa_formType := nr_formType f,
              fa_sensitiveInfo := nr_sensitiveInfo f,
              fa_sensitiveInfoSummary := nr_sensitiveInfoSummary f,
              fa_confidence := nr_confidence f, fa_pageCount := nr_pageCount f,
              fa_notes := nr_notes f \<rparr>"

text \<open>
  The \<open>try\<close> block of \<open>analyzePdf\<close>: the record as the block leaves it, and the
  exception that ended it, if one did. The deletion of the uploaded file sits in a
  \<open>try\<close> of its own with an empty handler, so neither outcome changes anything.
\<close>

definition analyzePdf_try :: "env \<Rightarrow> string \<Rightarrow> string \<Rightarrow> FormAnalysis \<Rightarrow> FormAnalysis \<times> error option" where
  "analyzePdf_try e prompt u result =
     (case fst (uploadPdfFromUrl e u) of
        Inl x \<Rightarrow> (result, Some x)
      | Inr (file, fileSizeKB) \<Rightarrow>
          let result1 = result \<lparr> fa_fileSizeKB := fileSizeKB \<rparr>
          in (case (file_uri file, file_mimeType file) of
                (Some uri, Some mimeType) \<Rightarrow>
                  if uri = [] \<or> mimeType = []
                  then (result1, Some (Error ''File upload succeeded but missing URI or mimeType''))
                  else (case generateContent e model uri mimeType prompt of
                          Inl x \<Rightarrow> (result1, Some x)
                        | Inr response_text \<Rightarrow>
                            let text = (case response_text of None \<Rightarrow> [] | Some t \<Rightarrow> t)
                            in (case parse_reply e text of
                                  Inl x \<Rightarrow> (result1, Some x)
                                | Inr parsed \<Rightarrow>
                                    (case normalizeResponse parsed of
                                       Inl x \<Rightarrow> (result1, Some x)
                                     | Inr f \<Rightarrow>
                                         (case files_delete e (file_name file) of
                                            Inl x \<Rightarrow> (assign result1 f, None)
                                          | Inr d \<Rightarrow> (assign result1 f, None)))))
              | _ \<Rightarrow> (result1, Some (Error ''File upload succeeded but missing URI or mimeType''))))"

definition analyzePdf :: "env \<Rightarrow> string \<Rightarrow> string \<Rightarrow> FormAnalysis" where
  "analyzePdf e prompt u =
     (let (result, thrown) = analyzePdf_try e prompt u (initial_result u);
          result' = (case thrown of
                       None \<Rightarrow> result
                     | Some x \<Rightarrow> result \<lparr> fa_error := Some (error_message x),
                                          fa_notes := JStr (''Error: '' @ error_message x) \<rparr>)
      in result' \<lparr> fa_processingTimeSec := (elapsed_ms e u + 500) div 1000 \<rparr>)"

text \<open>\<open>has_substring v\<close>: the value has a method \<open>substring\<close>, that is, it is a string.\<close>

fun has_substring :: "json \<Rightarrow> bool" where
  "has_substring (JStr s) = True"
| "has_substring v = False"

text \<open>
  \<open>analyzeAll\<close>: the documents one after the other (the pause of one second between two
  of them is not modelled), an entry that is empty after trimming skipped. After each
  document the loop prints \<open>result.notes.substring(0, 100)\<close> when \<open>result.notes\<close> is
  truthy; this is outside every \<open>try\<close>, so notes that are truthy and not a string make
  \<open>analyzeAll\<close> throw a \<open>TypeError\<close>, and the batch ends there without a result.
\<close>

fun analyzeAll :: "env \<Rightarrow> string \<Rightarrow> string list \<Rightarrow> error + FormAnalysis list" where
  "analyzeAll e prompt [] = Inr []"
| "analyzeAll e prompt (x # urls) =
     (let u = trim x
      in if u = [] then analyzeAll e prompt urls
         else let result = analyzePdf e prompt u
              in if Boolean (Some (fa_notes result)) \<and> \<not> has_substring (fa_notes result)
                 then Inl (Error ''result.notes.substring is not a function'')
                 else (case analyzeAll e prompt urls of
                         Inl x \<Rightarrow> Inl x
                       | Inr results \<Rightarrow> Inr (result # results)))"

section \<open>The evaluation script: one document\<close>









section \<open>Reading the URLs\<close>

text \<open>
  \<open>uniq seen xs\<close> is the order of a \<open>Set\<close> that holds \<open>seen\<close> after the elements of
  \<open>xs\<close> are added one by one: an element keeps the place of its first insertion.
  \<open>[...new Set(urls)]\<close> is \<open>uniq [] urls\<close>.
\<close>

fun uniq :: "'a list \<Rightarrow> 'a list \<Rightarrow> 'a list" where
  "uniq seen [] = seen"
| "uniq seen (x # xs) = (if x \<in> set seen then uniq seen xs else uniq (seen @ [x]) xs)"

text \<open>
  \<open>readUrlsFromFile\<close> on the path and the text of the file. \<open>urlPattern\<close> gives, for a
  line, the matches of the global PDF-URL pattern in it (none when \<open>match\<close> returns
  \<open>null\<close>).
\<close>

definition readUrlsFromFile :: "(string \<Rightarrow> string list) \<Rightarrow> string \<Rightarrow> string \<Rightarrow> string list" where
  "readUrlsFromFile urlPattern filePath content =
     (let lines = split_on CHR 0x0A content;
          isTxt = endsWith (toLowerCase filePath) ''.txt'';
          urls = (if isTxt
                  then filter (\<lambda>trimmed. trimmed \<noteq> [] \<and> \<not> startsWith trimmed ''#'')
                         (map trim lines)
                  else concat (map urlPattern lines))
      in uniq [] urls)"

section \<open>Writing the report\<close>

text \<open>
  \<open>escapeField\<close>, the same in \<open>writeResultsCsv\<close> and \<open>writeComparisonCsv\<close>.
  \<open>replace_quotes\<close> is \<open>value.replace(/"/g, '""')\<close>.
\<close>

definition dquote :: char where
  "dquote = CHR 0x22"

definition replace_quotes :: "string \<Rightarrow> string" where
  "replace_quotes v = concat (map (\<lambda>c. if c = dquote then [dquote, dquote] else [c]) v)"

definition escapeField :: "string \<Rightarrow> string" where
  "escapeField v =
     (if str_includes v '','' \<or> str_includes v [dquote] \<or> str_includes v [CHR 0x0A]
         \<or> str_includes v [CHR 0x0D]
      then [dquote] @ replace_quotes v @ [dquote]
      else v)"

text \<open>
  Standard CSV unescaping, as the specification words it: strip the enclosing quotes,
  halve the doubled quotes. A field that is not enclosed in quotes is taken as it is.
\<close>

fun halve_quotes :: "string \<Rightarrow> string" where
  "halve_quotes [] = []"
| "halve_quotes [c] = [c]"
| "halve_quotes (c # d # cs) =
     (if c = dquote \<and> d = dquote then dquote # halve_quotes cs
      else c # halve_quotes (d # cs))"

definition csv_unescape :: "string \<Rightarrow> string" where
  "csv_unescape s =
     (if 2 \<le> length s \<and> hd s = dquote \<and> last s = dquote
      then halve_quotes (butlast (tl s))
      else s)"

section \<open>Notions the properties are stated with\<close>

text \<open>
  The lines of a text that the line-oriented format keeps: trimmed, not empty, not
  starting with \<open>#\<close>, in their order.
\<close>

definition url_lines :: "string \<Rightarrow> string list" where
  "url_lines content =
     filter (\<lambda>l. l \<noteq> [] \<and> \<not> startsWith l ''#'') (map trim (split_on CHR 0x0A content))"

definition all_flags_false :: "SensitiveInfo \<Rightarrow> bool" where
  "all_flags_false i = (\<not> ssn i \<and> \<not> driversLicense i \<and> \<not> financial i \<and> \<not> health i
                         \<and> \<not> criminalHistory i)"

text \<open>
  An answer of \<open>ai.files.get\<close> that keeps the polling loop going: a file in the state
  PROCESSING.
\<close>

definition still_processing :: "error + File \<Rightarrow> bool" where
  "still_processing answer =
     (case answer of Inl x \<Rightarrow> False | Inr h \<Rightarrow> file_state h = Some ''PROCESSING'')"



text \<open>
  \<open>reply_text\<close> is \<open>response.text || ""\<close>. \<open>json_text\<close> is the text that the reply
  hands to \<open>JSON.parse\<close>: the body of the json fence, else the span of the braces, else
  nothing. \<open>uploaded\<close>: the upload step returned a file with a URI and a MIME type.
  \<open>printable_notes\<close>: notes that the batch loop can print, falsy or a string.
\<close>

definition reply_text :: "string option \<Rightarrow> string" where
  "reply_text t = (case t of None \<Rightarrow> [] | Some text \<Rightarrow> text)"

definition json_text :: "string \<Rightarrow> string option" where
  "json_text text =
     (case matchJsonFence text of None \<Rightarrow> matchBraces text | Some jsonMatch \<Rightarrow> Some jsonMatch)"

definition uploaded :: "env \<Rightarrow> string \<Rightarrow> File \<Rightarrow> nat \<Rightarrow> string \<Rightarrow> string \<Rightarrow> bool" where
  "uploaded e u file fileSizeKB uri mimeType =
     (fst (uploadPdfFromUrl e u) = Inr (file, fileSizeKB)
      \<and> file_uri file = Some uri \<and> uri \<noteq> []
      \<and> file_mimeType file = Some mimeType \<and> mimeType \<noteq> [])"

definition printable_notes :: "json \<Rightarrow> bool" where
  "printable_notes v = (\<not> Boolean (Some v) \<or> has_substring v)"

section \<open>Concrete inputs\<close>

text \<open>The line file of the end-to-end scenario, and a file with a repeated line.\<close>

definition scenario_text :: string where
  "scenario_text = ''https://x.test/a.pdf'' @ [CHR 0x0A] @ ''# comment'' @ [CHR 0x0A]
                    @ [CHR 0x0A] @ ''https://x.test/b.pdf''"

definition repeated_text :: string where
  "repeated_text = ''https://x.test/a.pdf'' @ [CHR 0x0A] @ ''https://x.test/a.pdf''"

definition no_matches :: "string \<Rightarrow> string list" where
  "no_matches line = []"

text \<open>A reply of the oracle, as parsed, and the text that carries it in a fence.\<close>

definition reply1 :: json where
  "reply1 = JObj [(''isForm'', JStr ''Yes''), (''formType'', JStr ''Fillable PDF''),
                  (''sensitiveInfo'', JObj [(''ssn'', JBool True), (''driversLicense'', JBool False),
                                            (''financial'', JStr ''yes''), (''health'', JNum 0)]),
                  (''confidence'', JNum 0.9), (''notes'', JStr ''a form'')]"

definition fenced_reply :: string where
  "fenced_reply = fence @ ''json'' @ [CHR 0x0A] @ ''{}'' @ [CHR 0x0A] @ fence"

text \<open>A canonical fragment with the form type \<open>Non-Fillable PDF\<close>.\<close>

definition nonfillable_fragment :: NormalizedResponse where
  "nonfillable_fragment =
     \<lparr> nr_isForm = ''Yes'', nr_formType = ''Non-Fillable PDF'',
       nr_sensitiveInfo = \<lparr> ssn = True, driversLicense = False, financial = False,
                            health = False, criminalHistory = False \<rparr>,
       nr_sensitiveInfoSummary = ''SSN'',
       nr_confidence = 0.9, nr_pageCount = 2, nr_notes = JStr ''A printable form'' \<rparr>"

text \<open>
  Two worlds. In \<open>stuck_env\<close> the uploaded file never leaves the state \<open>PROCESSING\<close>.
  In \<open>scenario_env\<close> the download of \<open>a.pdf\<close> is answered with 404, every other
  document is processed at once, and deleting the upload fails.
\<close>

definition processing_file :: File where
  "processing_file = \<lparr> file_name = Some ''files/abc'', file_uri = Some ''https://g.test/files/abc'',
                        file_mimeType = Some ''application/pdf'', file_state = Some ''PROCESSING'' \<rparr>"

definition active_file :: File where
  "active_file = \<lparr> file_name = Some ''files/abc'', file_uri = Some ''https://g.test/files/abc'',
                    file_mimeType = Some ''application/pdf'', file_state = Some ''ACTIVE'' \<rparr>"

definition stuck_env :: env where
  "stuck_env =
     \<lparr> fetch = (\<lambda>u. Inr \<lparr> ok = True, status = 200, statusText = ''OK'', arrayBuffer = Inr 2048 \<rparr>),
       URL_pathname = (\<lambda>u. Inr ''/docs/a.pdf''),
       files_upload = (\<lambda>u d. Inr processing_file),
       files_get = (\<lambda>n k. Inr processing_file),
       files_delete = (\<lambda>n. Inr ()),
       generateContent = (\<lambda>m u t p. Inr (Some fenced_reply)),
       JSON_parse = (\<lambda>s. Inr reply1),
       elapsed_ms = (\<lambda>u. 61800) \<rparr>"

definition scenario_env :: env where
  "scenario_env =
     \<lparr> fetch = (\<lambda>u. if u = ''https://x.test/a.pdf''
                     then Inr \<lparr> ok = False, status = 404, statusText = ''Not Found'',
                                arrayBuffer = Inr 0 \<rparr>
                     else Inr \<lparr> ok = True, status = 200, statusText = ''OK'',
                                arrayBuffer = Inr 2048 \<rparr>),
       URL_pathname = (\<lambda>u. Inr ''/b.pdf''),
       files_upload = (\<lambda>u d. Inr active_file),
       files_get = (\<lambda>n k. Inr active_file),
       files_delete = (\<lambda>n. Inl (Error ''not found'')),
       generateContent = (\<lambda>m u t p. Inr (Some fenced_reply)),
       JSON_parse = (\<lambda>s. if s = ''{}'' then Inr reply1 else Inl (Error ''Unexpected token'')),
       elapsed_ms = (\<lambda>u. 1499) \<rparr>"

text \<open>
  In \<open>failing_env\<close> the file is PROCESSING at the calls 0 and 1 and FAILED from call 2 on.
  In \<open>array_env\<close> the reply's notes are an array.
\<close>

definition failed_file :: File where
  "failed_file = \<lparr> file_name = Some ''files/abc'', file_uri = Some ''https://g.test/files/abc'',
                    file_mimeType = Some ''application/pdf'', file_state = Some ''FAILED'' \<rparr>"

definition failing_env :: env where
  "failing_env = stuck_env \<lparr> files_get := (\<lambda>n k. if k < 2 then Inr processing_file else Inr failed_file) \<rparr>"

definition array_notes_reply :: json where
  "array_notes_reply = JObj [(''isForm'', JStr ''No''), (''notes'', JArr [JStr ''n''])]"

definition array_env :: env where
  "array_env = scenario_env \<lparr> JSON_parse := (\<lambda>s. Inr array_notes_reply) \<rparr>"

section \<open>Facts about the string functions\<close>

lemmas lower_simps = toLowerCase_def toLowerCase_char_def upper_chars_def lower_chars_def

lemmas trim_simps = trim_def isWhiteSpace_def

lemma startsWith_iff: "startsWith s p \<longleftrightarrow> (\<exists>r. s = p @ r)"
  by (induction s p rule: startsWith.induct) auto

lemma str_includes_iff: "str_includes s p \<longleftrightarrow> (\<exists>l r. s = l @ p @ r)"
proof (induction s)
  case Nil
  then show ?case by auto
next
  case (Cons c cs)
  show ?case
  proof
    assume "str_includes (c # cs) p"
    then consider "startsWith (c # cs) p" | "str_includes cs p" by auto
    then show "\<exists>l r. c # cs = l @ p @ r"
    proof cases
      case 1
      then obtain r where "c # cs = p @ r" by (auto simp: startsWith_iff)
      then have "c # cs = [] @ p @ r" by simp
      then show ?thesis by blast
    next
      case 2
      then obtain l r where "cs = l @ p @ r" using Cons.IH by blast
      then have "c # cs = (c # l) @ p @ r" by simp
      then show ?thesis by blast
    qed
  next
    assume "\<exists>l r. c # cs = l @ p @ r"
    then obtain l r where e: "c # cs = l @ p @ r" by blast
    show "str_includes (c # cs) p"
    proof (cases l)
      case Nil
      with e have "startsWith (c # cs) p" by (auto simp: startsWith_iff)
      then show ?thesis by simp
    next
      case (Cons a l')
      with e have "cs = l' @ p @ r" by simp
      then have "str_includes cs p" using Cons.IH by blast
      then show ?thesis by simp
    qed
  qed
qed

lemma str_includes_suffix: "str_includes s (a @ b) \<Longrightarrow> str_includes s b"
proof -
  assume "str_includes s (a @ b)"
  then obtain l r where "s = l @ (a @ b) @ r" by (auto simp: str_includes_iff)
  then have "s = (l @ a) @ b @ r" by simp
  then show ?thesis unfolding str_includes_iff by blast
qed

section \<open>The comparator\<close>

text \<open>
  C1. The sensitivity match is the tiered rule. With \<open>h\<close> and \<open>m\<close> the human and the
  machine string lower-cased and trimmed: if \<open>h\<close> is empty or "no", the match holds iff
  \<open>m\<close> is empty or "no"; otherwise, if \<open>h\<close> is "yes" or contains "ssn" or "dl", it
  holds iff \<open>m\<close> is neither empty nor "no"; otherwise it holds iff \<open>h = m\<close>. Human
  "Yes" matches machine "SSN, Financial", human "Yes" does not match machine "", and
  human "" matches machine "".
\<close>

theorem sensitive_match_tiered:
  "normalizeSensitiveForComparison human llm =
     (let h = trim (toLowerCase human); m = trim (toLowerCase llm)
      in if h = [] \<or> h = ''no'' then m = [] \<or> m = ''no''
         else if h = ''yes'' \<or> str_includes h ''ssn'' \<or> str_includes h ''dl''
              then \<not> (m = [] \<or> m = ''no'')
              else h = m)
   \<and> normalizeSensitiveForComparison ''Yes'' ''SSN, Financial''
   \<and> \<not> normalizeSensitiveForComparison ''Yes'' ''''
   \<and> normalizeSensitiveForComparison '''' ''''"
proof -
  have general: "normalizeSensitiveForComparison human llm =
     (let h = trim (toLowerCase human); m = trim (toLowerCase llm)
      in if h = [] \<or> h = ''no'' then m = [] \<or> m = ''no''
         else if h = ''yes'' \<or> str_includes h ''ssn'' \<or> str_includes h ''dl''
              then \<not> (m = [] \<or> m = ''no'')
              else h = m)"
    unfolding normalizeSensitiveForComparison_def Let_def by auto
  have e1: "normalizeSensitiveForComparison ''Yes'' ''SSN, Financial''"
    by (simp add: normalizeSensitiveForComparison_def lower_simps trim_simps)
  have e2: "\<not> normalizeSensitiveForComparison ''Yes'' ''''"
    by (simp add: normalizeSensitiveForComparison_def lower_simps trim_simps)
  have e3: "normalizeSensitiveForComparison '''' ''''"
    by (simp add: normalizeSensitiveForComparison_def lower_simps trim_simps)
  show ?thesis by (rule conjI [OF general conjI [OF e1 conjI [OF e2 e3]]])
qed

theorem sensitive_match_tiered_witness:
  "normalizeSensitiveForComparison '' SSN and DL# '' ''Financial''
   \<and> \<not> normalizeSensitiveForComparison ''NO'' ''Health''
   \<and> \<not> normalizeSensitiveForComparison ''Health'' ''Health, Criminal''"
proof -
  have a: "normalizeSensitiveForComparison '' SSN and DL# '' ''Financial''"
    using sensitive_match_tiered [of "'' SSN and DL# ''" "''Financial''"]
    by (simp add: lower_simps trim_simps)
  have b: "\<not> normalizeSensitiveForComparison ''NO'' ''Health''"
    using sensitive_match_tiered [of "''NO''" "''Health''"]
    by (simp add: lower_simps trim_simps)
  have c: "\<not> normalizeSensitiveForComparison ''Health'' ''Health, Criminal''"
    using sensitive_match_tiered [of "''Health''" "''Health, Criminal''"]
    by (simp add: lower_simps trim_simps)
  show ?thesis by (rule conjI [OF a conjI [OF b c]])
qed

text \<open>
  C2. When the human says "No" (in any case) and the machine says \<open>No\<close>, the form-type
  match holds whatever the two form-type strings are, and \<open>allMatch\<close> is the conjunction
  of the three match flags.
\<close>

theorem compare_not_a_form:
  assumes "toLowerCase (hr_isForm human) = ''no''" and "llm_isForm llm = ''No''"
  shows "formTypeMatch (compare human llm)
       \<and> allMatch (compare human llm) =
           (isFormMatch (compare human llm) \<and> formTypeMatch (compare human llm)
            \<and> sensitiveMatch (compare human llm))"
  using assms by (simp add: compare_def Let_def)

theorem compare_not_a_form_witness:
  "formTypeMatch
     (compare \<lparr> hr_url = ''https://x.test/a.pdf'', hr_isForm = ''NO'',
                hr_formType = ''Fillable PDF'', hr_sensitiveInfo = [], hr_reviewer = ''R'',
                hr_notes = [] \<rparr>
              \<lparr> llm_url = ''https://x.test/a.pdf'', llm_isForm = ''No'',
                llm_formType = ''Unknown'', llm_sensitiveInfo = no_sensitiveInfo,
                llm_notes = [], llm_error = None \<rparr>)
   \<and> toLowerCase (normalizeFormType ''Fillable PDF'') \<noteq> toLowerCase (normalizeFormType ''Unknown'')"
proof -
  let ?h = "\<lparr> hr_url = ''https://x.test/a.pdf'', hr_isForm = ''NO'',
                hr_formType = ''Fillable PDF'', hr_sensitiveInfo = [], hr_reviewer = ''R'',
                hr_notes = [] \<rparr>"
  let ?l = "\<lparr> llm_url = ''https://x.test/a.pdf'', llm_isForm = ''No'',
                llm_formType = ''Unknown'', llm_sensitiveInfo = no_sensitiveInfo,
                llm_notes = [], llm_error = None \<rparr>"
  have h: "toLowerCase (hr_isForm ?h) = ''no''" by (simp add: lower_simps)
  have l: "llm_isForm ?l = ''No''" by simp
  have a: "formTypeMatch (compare ?h ?l)"
    by (rule conjunct1 [OF compare_not_a_form [OF h l]])
  have b: "toLowerCase (normalizeFormType ''Fillable PDF'') \<noteq> toLowerCase (normalizeFormType ''Unknown'')"
    by (simp add: normalizeFormType_def lower_simps trim_simps)
  show ?thesis by (rule conjI [OF a b])
qed

lemma nonfillable_lower: "trim (toLowerCase ''Non-Fillable PDF'') = ''non-fillable pdf''"
  by (simp add: lower_simps trim_simps)

text \<open>What the human-side normalizer computes, its unreachable branch left out.\<close>

lemma normalizeFormType_effective:
  "normalizeFormType s =
     (if s = [] then []
      else if str_includes (trim (toLowerCase s)) ''fillable'' then ''Fillable PDF''
      else if trim (toLowerCase s) = ''n/a'' \<or> trim (toLowerCase s) = ''na'' then ''N/A''
      else s)"
proof -
  define t where "t = trim (toLowerCase s)"
  have "\<not> str_includes t ''fillable'' \<Longrightarrow>
          \<not> (str_includes t ''non-fillable'' \<or> str_includes t ''nonfillable'')"
    using str_includes_suffix [of t "''non-''" "''fillable''"]
      str_includes_suffix [of t "''non''" "''fillable''"] by auto
  then show ?thesis
    unfolding normalizeFormType_def Let_def t_def [symmetric] by auto
qed

text \<open>
  C3. The claim is that a human form type containing "non-fillable" or "nonfillable"
  normalizes to \<open>Non-Fillable PDF\<close>. The function tests for "fillable" first, and every
  string with "non-fillable" or "nonfillable" in it has "fillable" in it: the reviewer's
  value \<open>Non-Fillable PDF\<close> becomes \<open>Fillable PDF\<close>, and no input at all gives
  \<open>Non-Fillable PDF\<close>.
\<close>

theorem normalizeFormType_never_nonfillable:
  "normalizeFormType ''Non-Fillable PDF'' = ''Fillable PDF''
   \<and> normalizeFormType ''nonfillable'' = ''Fillable PDF''
   \<and> (\<forall>s. normalizeFormType s \<noteq> ''Non-Fillable PDF'')"
proof -
  have a: "normalizeFormType ''Non-Fillable PDF'' = ''Fillable PDF''"
    by (simp add: normalizeFormType_def lower_simps trim_simps)
  have b: "normalizeFormType ''nonfillable'' = ''Fillable PDF''"
    by (simp add: normalizeFormType_def lower_simps trim_simps)
  have c: "normalizeFormType s \<noteq> ''Non-Fillable PDF''" for s
  proof (cases "s = []")
    case True
    then show ?thesis by (simp add: normalizeFormType_def)
  next
    case False
    define t where "t = trim (toLowerCase s)"
    show ?thesis
    proof (cases "str_includes t ''fillable''")
      case True
      with False show ?thesis by (simp add: normalizeFormType_def t_def)
    next
      case nf: False
      have n1: "\<not> str_includes t ''non-fillable''"
        using str_includes_suffix [of t "''non-''" "''fillable''"] nf by auto
      have n2: "\<not> str_includes t ''nonfillable''"
        using str_includes_suffix [of t "''non''" "''fillable''"] nf by auto
      have "s \<noteq> ''Non-Fillable PDF''"
      proof
        assume "s = ''Non-Fillable PDF''"
        then have "t = ''non-fillable pdf''" by (simp add: t_def nonfillable_lower)
        then have "str_includes t ''fillable''" by simp
        with nf show False by simp
      qed
      with False nf n1 n2 show ?thesis
        by (simp add: normalizeFormType_def t_def [symmetric] Let_def)
    qed
  qed
  have c': "\<forall>s. normalizeFormType s \<noteq> ''Non-Fillable PDF''"
    by (intro allI) (rule c)
  show ?thesis by (rule conjI [OF a conjI [OF b c']])
qed

section \<open>The analyzer's form-type rules\<close>

text \<open>
  C5. A raw form type that, lower-cased and trimmed, contains both "fillable" and "pdf"
  normalizes to \<open>Fillable PDF\<close>: the rule is the first one, so no later rule (the
  contains-"pdf" fallback among them) is reached. The empty string gives \<open>N/A\<close>, and a
  string that matches no rule gives \<open>Unknown\<close>.
\<close>

theorem formType_fillable_pdf_first:
  "(str_includes (trim (toLowerCase s)) ''fillable'' \<and> str_includes (trim (toLowerCase s)) ''pdf''
      \<longrightarrow> FormAnalyzer_normalizeFormType s = ''Fillable PDF'')
   \<and> FormAnalyzer_normalizeFormType [] = ''N/A''
   \<and> (s \<noteq> [] \<and> \<not> str_includes (trim (toLowerCase s)) ''pdf''
      \<and> (\<forall>k \<in> set [''non-fillable'', ''nonfillable'', ''google'', ''airtable'', ''office'',
                      ''excel'', ''word'', ''phone'', ''email'', ''digital'', ''printable''].
            \<not> str_includes (trim (toLowerCase s)) k)
      \<and> trim (toLowerCase s) \<noteq> ''n/a'' \<and> trim (toLowerCase s) \<noteq> ''not a form''
      \<longrightarrow> FormAnalyzer_normalizeFormType s = ''Unknown'')"
proof -
  define n where "n = trim (toLowerCase s)"
  have e: "s = [] \<Longrightarrow> n = []" by (simp add: n_def toLowerCase_def trim_def)
  have a: "str_includes n ''fillable'' \<and> str_includes n ''pdf''
      \<longrightarrow> FormAnalyzer_normalizeFormType s = ''Fillable PDF''"
  proof
    assume h: "str_includes n ''fillable'' \<and> str_includes n ''pdf''"
    then have "n \<noteq> []" by auto
    with e have "s \<noteq> []" by blast
    with h show "FormAnalyzer_normalizeFormType s = ''Fillable PDF''"
      by (simp add: FormAnalyzer_normalizeFormType_def n_def [symmetric] Let_def)
  qed
  have b: "FormAnalyzer_normalizeFormType [] = ''N/A''"
    by (simp add: FormAnalyzer_normalizeFormType_def)
  have c: "s \<noteq> [] \<and> \<not> str_includes n ''pdf''
      \<and> (\<forall>k \<in> set [''non-fillable'', ''nonfillable'', ''google'', ''airtable'', ''office'',
                      ''excel'', ''word'', ''phone'', ''email'', ''digital'', ''printable''].
            \<not> str_includes n k)
      \<and> n \<noteq> ''n/a'' \<and> n \<noteq> ''not a form''
      \<longrightarrow> FormAnalyzer_normalizeFormType s = ''Unknown''"
    by (simp add: FormAnalyzer_normalizeFormType_def n_def [symmetric] Let_def)
  show ?thesis using conjI [OF a conjI [OF b c]] unfolding n_def .
qed

theorem formType_fillable_pdf_first_witness:
  "FormAnalyzer_normalizeFormType ''PDF (Google form, non-fillable)'' = ''Fillable PDF''
   \<and> FormAnalyzer_normalizeFormType ''  Web page '' = ''Unknown''"
proof -
  have l1: "trim (toLowerCase ''PDF (Google form, non-fillable)'') = ''pdf (google form, non-fillable)''"
    by (simp add: lower_simps trim_simps)
  have l2: "trim (toLowerCase ''  Web page '') = ''web page''"
    by (simp add: lower_simps trim_simps)
  have a: "FormAnalyzer_normalizeFormType ''PDF (Google form, non-fillable)'' = ''Fillable PDF''"
    using formType_fillable_pdf_first [of "''PDF (Google form, non-fillable)''"]
    unfolding l1 by simp
  have b: "FormAnalyzer_normalizeFormType ''  Web page '' = ''Unknown''"
    using formType_fillable_pdf_first [of "''  Web page ''"]
    unfolding l2 by simp
  show ?thesis by (rule conjI [OF a b])
qed

section \<open>Escaping a field of the report\<close>

lemma str_includes_single: "str_includes v [c] \<longleftrightarrow> c \<in> set v"
  by (induction v) auto

lemma halve_quotes_other: "c \<noteq> dquote \<Longrightarrow> halve_quotes (c # xs) = c # halve_quotes xs"
  by (cases xs) auto

lemma halve_replace_quotes: "halve_quotes (replace_quotes v) = v"
proof (induction v)
  case Nil
  then show ?case by (simp add: replace_quotes_def)
next
  case (Cons c v)
  have step: "replace_quotes (c # v) = (if c = dquote then [dquote, dquote] else [c]) @ replace_quotes v"
    by (simp add: replace_quotes_def)
  show ?case
  proof (cases "c = dquote")
    case True
    with step Cons.IH show ?thesis by simp
  next
    case False
    with step Cons.IH show ?thesis by (simp add: halve_quotes_other)
  qed
qed

lemma escapeField_cases:
  "escapeField v =
     (if \<exists>c \<in> set v. c \<in> {CHR '','', dquote, CHR 0x0A, CHR 0x0D}
      then [dquote] @ concat (map (\<lambda>c. if c = dquote then [dquote, dquote] else [c]) v) @ [dquote]
      else v)"
  unfolding escapeField_def replace_quotes_def str_includes_single by auto

lemma csv_unescape_quoted: "csv_unescape ([dquote] @ w @ [dquote]) = halve_quotes w"
  by (simp add: csv_unescape_def)

lemma csv_unescape_plain: "dquote \<notin> set v \<Longrightarrow> csv_unescape v = v"
  by (cases v) (auto simp: csv_unescape_def)

text \<open>
  C8. \<open>escapeField\<close> is defined on every string: a string with a comma, a double quote,
  a line feed or a carriage return in it comes back in double quotes with each of its
  double quotes doubled, any other string comes back as it is; and unescaping (strip the
  enclosing quotes, halve the doubled quotes) gives the string back.
\<close>

theorem escapeField_roundtrip:
  "escapeField v =
     (if \<exists>c \<in> set v. c \<in> {CHR '','', dquote, CHR 0x0A, CHR 0x0D}
      then [dquote] @ concat (map (\<lambda>c. if c = dquote then [dquote, dquote] else [c]) v) @ [dquote]
      else v)
   \<and> csv_unescape (escapeField v) = v"
proof -
  have rt: "csv_unescape (escapeField v) = v"
  proof (cases "str_includes v '','' \<or> str_includes v [dquote] \<or> str_includes v [CHR 0x0A]
         \<or> str_includes v [CHR 0x0D]")
    case True
    then have "escapeField v = [dquote] @ replace_quotes v @ [dquote]"
      by (simp add: escapeField_def)
    then show ?thesis
      using csv_unescape_quoted [of "replace_quotes v"] by (simp add: halve_replace_quotes)
  next
    case False
    then have "escapeField v = v" and "dquote \<notin> set v"
      by (simp_all add: escapeField_def str_includes_single)
    then show ?thesis by (simp add: csv_unescape_plain)
  qed
  show ?thesis by (rule conjI [OF escapeField_cases rt])
qed

theorem escapeField_roundtrip_witness:
  "escapeField (''say '' @ [dquote] @ ''hi'' @ [dquote] @ '', ok'')
     = [dquote] @ ''say '' @ [dquote, dquote] @ ''hi'' @ [dquote, dquote] @ '', ok'' @ [dquote]
   \<and> csv_unescape ([dquote] @ ''say '' @ [dquote, dquote] @ ''hi'' @ [dquote, dquote] @ '', ok'' @ [dquote])
     = ''say '' @ [dquote] @ ''hi'' @ [dquote] @ '', ok''
   \<and> escapeField ''plain'' = ''plain''"
proof -
  have a: "escapeField (''say '' @ [dquote] @ ''hi'' @ [dquote] @ '', ok'')
     = [dquote] @ ''say '' @ [dquote, dquote] @ ''hi'' @ [dquote, dquote] @ '', ok'' @ [dquote]"
    using escapeField_roundtrip [of "''say '' @ [dquote] @ ''hi'' @ [dquote] @ '', ok''"]
    by (simp add: dquote_def)
  have b: "csv_unescape (escapeField (''say '' @ [dquote] @ ''hi'' @ [dquote] @ '', ok''))
     = ''say '' @ [dquote] @ ''hi'' @ [dquote] @ '', ok''"
    by (rule conjunct2 [OF escapeField_roundtrip])
  have c: "escapeField ''plain'' = ''plain''"
    using escapeField_roundtrip [of "''plain''"] by (simp add: dquote_def)
  from a b c show ?thesis by simp
qed

section \<open>The summary of the sensitivity flags\<close>

lemma sensitiveItems_labels:
  "sensitiveItems i =
     map snd (filter fst [(ssn i, ''SSN''), (driversLicense i, ''DL#''), (financial i, ''Financial''),
                          (health i, ''Health''), (criminalHistory i, ''Criminal'')])"
  by (simp add: sensitiveItems_def)

lemma sensitiveItems_empty: "sensitiveItems i = [] \<longleftrightarrow> all_flags_false i"
  by (simp add: sensitiveItems_def all_flags_false_def)

lemma join_first: "join sep (x # xs) = x @ (if xs = [] then [] else sep @ join sep xs)"
  by (cases xs) auto

lemma join_labels_not_None:
  assumes "sensitiveItems i \<noteq> []"
  shows "join '', '' (sensitiveItems i) \<noteq> ''None''"
proof -
  obtain x xs where c: "sensitiveItems i = x # xs"
    using assms by (cases "sensitiveItems i") auto
  then have "x \<in> set (sensitiveItems i)" by simp
  then have "x \<in> {''SSN'', ''DL#'', ''Financial'', ''Health'', ''Criminal''}"
    by (auto simp: sensitiveItems_def split: if_splits)
  then have "hd (x @ r) \<noteq> CHR ''N''" for r by auto
  then have "hd (join '', '' (x # xs)) \<noteq> CHR ''N''" by (simp add: join_first)
  with c show ?thesis by auto
qed

lemma reply1_normalized:
  "normalizeResponse reply1 =
     Inr \<lparr> nr_isForm = ''Yes'', nr_formType = ''Fillable PDF'',
           nr_sensitiveInfo = \<lparr> ssn = True, driversLicense = False, financial = True,
                                health = False, criminalHistory = False \<rparr>,
           nr_sensitiveInfoSummary = ''SSN, Financial'',
           nr_confidence = 0.9, nr_pageCount = 0, nr_notes = JStr ''a form'' \<rparr>"
  by (simp add: normalizeResponse_def reply1_def sensitiveInfo_of_def sensitiveItems_def
      FormAnalyzer_normalizeFormType_def lower_simps trim_simps)

text \<open>
  When does \<open>normalizeResponse\<close> return a fragment: for every reply other than \<open>null\<close>
  whose \<open>formType\<close> is a string or falsy.
\<close>

lemma normalizeResponse_returns:
  "(\<exists>f. normalizeResponse parsed = Inr f) \<longleftrightarrow>
     parsed \<noteq> JNull
     \<and> (\<exists>t. FormAnalyzer_normalizeFormType_any (get_prop parsed ''formType'') = Inr t)"
  by (auto simp: normalizeResponse_def Let_def split: sum.splits)

text \<open>
  C10. In every fragment that \<open>normalizeResponse\<close> returns, the summary is "None"
  exactly when the five flags are all false, and otherwise it is the labels of the true
  flags, in the order SSN, DL#, Financial, Health, Criminal, joined with ", ". The flags
  are the truthiness of the reply's five fields.
\<close>

theorem normalizeResponse_summary_consistent:
  assumes "normalizeResponse parsed = Inr f"
  shows "(nr_sensitiveInfoSummary f = ''None'' \<longleftrightarrow> all_flags_false (nr_sensitiveInfo f))
       \<and> (\<not> all_flags_false (nr_sensitiveInfo f) \<longrightarrow>
            nr_sensitiveInfoSummary f =
              join '', '' (map snd (filter fst
                [(ssn (nr_sensitiveInfo f), ''SSN''), (driversLicense (nr_sensitiveInfo f), ''DL#''),
                 (financial (nr_sensitiveInfo f), ''Financial''), (health (nr_sensitiveInfo f), ''Health''),
                 (criminalHistory (nr_sensitiveInfo f), ''Criminal'')])))
       \<and> nr_sensitiveInfo f = sensitiveInfo_of (get_prop parsed ''sensitiveInfo'')"
proof -
  define i where "i = sensitiveInfo_of (get_prop parsed ''sensitiveInfo'')"
  from assms have s: "nr_sensitiveInfo f = i"
    and m0: "nr_sensitiveInfoSummary f =
              (if length (sensitiveItems i) > 0 then join '', '' (sensitiveItems i) else ''None'')"
    by (auto simp: normalizeResponse_def Let_def i_def split: if_splits sum.splits)
  let ?i = "nr_sensitiveInfo f"
  from m0 s have m: "nr_sensitiveInfoSummary f =
              (if length (sensitiveItems ?i) > 0 then join '', '' (sensitiveItems ?i) else ''None'')"
    by simp
  have c1: "nr_sensitiveInfoSummary f = ''None'' \<longleftrightarrow> all_flags_false ?i"
    using m join_labels_not_None [of ?i] sensitiveItems_empty [of ?i] by auto
  have "\<not> all_flags_false ?i \<longrightarrow> nr_sensitiveInfoSummary f = join '', '' (sensitiveItems ?i)"
    using m sensitiveItems_empty [of ?i] by auto
  then have c2: "\<not> all_flags_false ?i \<longrightarrow>
            nr_sensitiveInfoSummary f =
              join '', '' (map snd (filter fst
                [(ssn ?i, ''SSN''), (driversLicense ?i, ''DL#''), (financial ?i, ''Financial''),
                 (health ?i, ''Health''), (criminalHistory ?i, ''Criminal'')]))"
    by (simp only: sensitiveItems_labels)
  have c3: "?i = sensitiveInfo_of (get_prop parsed ''sensitiveInfo'')"
    using s by (simp only: i_def)
  show ?thesis by (rule conjI [OF c1 conjI [OF c2 c3]])
qed

theorem normalizeResponse_summary_consistent_witness:
  "sensitiveInfo_of (get_prop reply1 ''sensitiveInfo'')
     = \<lparr> ssn = True, driversLicense = False, financial = True, health = False,
         criminalHistory = False \<rparr>
   \<and> join '', '' (map snd (filter fst
        [(True, ''SSN''), (False, ''DL#''), (True, ''Financial''), (False, ''Health''),
         (False, ''Criminal'')])) = ''SSN, Financial''"
  using normalizeResponse_summary_consistent [OF reply1_normalized]
  by (simp add: all_flags_false_def)

section \<open>Normalizing a canonical fragment again\<close>

lemma sensitiveInfo_of_fragment:
  "sensitiveInfo_of (get_prop (fragment_object f) ''sensitiveInfo'') = nr_sensitiveInfo f"
  by (simp add: sensitiveInfo_of_def fragment_object_def)

lemma canonical_formType_fixed:
  assumes "canonical_formType t" and "t \<noteq> ''Non-Fillable PDF''"
  shows "FormAnalyzer_normalizeFormType t = t"
proof -
  from assms(1) have "t = ''Fillable PDF'' \<or> t = ''Non-Fillable PDF'' \<or> t = ''Google form''
      \<or> t = ''MS Office form'' \<or> t = ''MS Word document'' \<or> t = ''Airtable form''
      \<or> t = ''Phone'' \<or> t = ''Email'' \<or> t = ''N/A'' \<or> t = ''Unknown''"
    unfolding canonical_formType_def FORM_TYPES_def
    by (simp only: append.simps list.set insert_iff empty_iff simp_thms)
  with assms(2) show ?thesis
    by (elim disjE) (simp_all add: FormAnalyzer_normalizeFormType_def lower_simps trim_simps)
qed

text \<open>
  Every canonical fragment but those of type \<open>Non-Fillable PDF\<close> is a fixed point.
\<close>

lemma normalizeResponse_fixed_point:
  assumes "canonical_fragment f" and "nr_formType f \<noteq> ''Non-Fillable PDF''"
  shows "normalizeResponse (fragment_object f) = Inr f"
proof -
  from assms have t: "FormAnalyzer_normalizeFormType (nr_formType f) = nr_formType f"
    by (simp add: canonical_fragment_def canonical_formType_fixed)
  from assms(1) obtain s where n: "nr_notes f = JStr s"
    by (auto simp: canonical_fragment_def split: json.splits)
  have i: "(if get_prop (fragment_object f) ''isForm'' = Some (JStr ''Yes'') then ''Yes'' else ''No'')
             = nr_isForm f"
    using assms(1) by (auto simp: canonical_fragment_def fragment_object_def)
  have m: "nr_sensitiveInfoSummary f =
          (if length (sensitiveItems (nr_sensitiveInfo f)) > 0
           then join '', '' (sensitiveItems (nr_sensitiveInfo f)) else ''None'')"
    using assms(1) by (simp add: canonical_fragment_def)
  have o: "get_prop (fragment_object f) ''formType'' = Some (JStr (nr_formType f))"
    "get_prop (fragment_object f) ''confidence'' = Some (JNum (nr_confidence f))"
    "get_prop (fragment_object f) ''pageCount'' = Some (JNum (nr_pageCount f))"
    "get_prop (fragment_object f) ''notes'' = Some (JStr s)"
    by (simp_all add: fragment_object_def n)
  have nn: "fragment_object f \<noteq> JNull"
    by (simp add: fragment_object_def)
  show ?thesis
    unfolding normalizeResponse_def Let_def sensitiveInfo_of_fragment o i
    using t m n nn by simp
qed

text \<open>
  C4. The claim is that every canonical fragment is a fixed point of the normalizer.
  The fragment \<open>nonfillable_fragment\<close> is canonical, with the form type
  \<open>Non-Fillable PDF\<close> that the prompt asks the oracle for; normalized again, its form
  type becomes \<open>Fillable PDF\<close>, because "non-fillable pdf" contains "fillable" and
  "pdf" and that rule is tested first.
\<close>

theorem normalizeResponse_nonfillable_not_fixed:
  "canonical_fragment nonfillable_fragment
   \<and> normalizeResponse (fragment_object nonfillable_fragment)
       = Inr (nonfillable_fragment \<lparr> nr_formType := ''Fillable PDF'' \<rparr>)
   \<and> normalizeResponse (fragment_object nonfillable_fragment) \<noteq> Inr nonfillable_fragment"
proof -
  have a: "canonical_fragment nonfillable_fragment"
    by (simp add: canonical_fragment_def nonfillable_fragment_def canonical_formType_def
        FORM_TYPES_def sensitiveItems_def)
  have t: "FormAnalyzer_normalizeFormType ''Non-Fillable PDF'' = ''Fillable PDF''"
    by (simp add: FormAnalyzer_normalizeFormType_def lower_simps trim_simps)
  have o: "get_prop (fragment_object nonfillable_fragment) ''formType'' = Some (JStr ''Non-Fillable PDF'')"
    "get_prop (fragment_object nonfillable_fragment) ''isForm'' = Some (JStr ''Yes'')"
    "get_prop (fragment_object nonfillable_fragment) ''confidence'' = Some (JNum 0.9)"
    "get_prop (fragment_object nonfillable_fragment) ''pageCount'' = Some (JNum 2)"
    "get_prop (fragment_object nonfillable_fragment) ''notes'' = Some (JStr ''A printable form'')"
    by (simp_all add: fragment_object_def nonfillable_fragment_def)
  have nn: "fragment_object nonfillable_fragment \<noteq> JNull"
    by (simp add: fragment_object_def)
  have b: "normalizeResponse (fragment_object nonfillable_fragment)
       = Inr (nonfillable_fragment \<lparr> nr_formType := ''Fillable PDF'' \<rparr>)"
    unfolding normalizeResponse_def Let_def sensitiveInfo_of_fragment o
    using nn by (simp add: t nonfillable_fragment_def sensitiveItems_def)
  have c: "nonfillable_fragment \<lparr> nr_formType := ''Fillable PDF'' \<rparr> \<noteq> nonfillable_fragment"
    by (simp add: nonfillable_fragment_def)
  from a b c show ?thesis by simp
qed

section \<open>Polling the uploaded file\<close>

lemma poll_stop:
  "\<not> (file_state g = Some ''PROCESSING'' \<and> a < 30) \<Longrightarrow> poll e n g a s = (Inr g, a, s)"
  by (subst poll.simps) auto

lemma poll_step:
  "file_state g = Some ''PROCESSING'' \<Longrightarrow> a < 30 \<Longrightarrow>
     poll e n g a s = (case files_get e n (Suc a) of
                         Inl x \<Rightarrow> (Inl x, a, s + 2000)
                       | Inr g' \<Rightarrow> poll e n g' (Suc a) (s + 2000))"
  by (subst poll.simps) simp

lemma poll_run:
  assumes "k \<le> 30"
    and "\<forall>j<k. still_processing (files_get e n j)"
    and "k = 30 \<or> \<not> still_processing (files_get e n k)"
  shows "a \<le> k \<Longrightarrow> files_get e n a = Inr g0 \<Longrightarrow>
           fst (poll e n g0 a s) = files_get e n k
           \<and> snd (snd (poll e n g0 a s)) = s + 2000 * (k - a)"
proof (induction "k - a" arbitrary: a g0 s)
  case 0
  then have ak: "a = k" by simp
  with 0 assms(1,3) have "\<not> (file_state g0 = Some ''PROCESSING'' \<and> a < 30)"
    by (auto simp: still_processing_def)
  then have "poll e n g0 a s = (Inr g0, a, s)" by (rule poll_stop)
  with ak 0 show ?case by simp
next
  case (Suc d)
  then have lt: "a < k" by simp
  with assms(2) Suc.prems(2) have p: "file_state g0 = Some ''PROCESSING''"
    by (auto simp: still_processing_def)
  from lt assms(1) have a30: "a < 30" by simp
  show ?case
  proof (cases "files_get e n (Suc a)")
    case (Inl x)
    then have "\<not> still_processing (files_get e n (Suc a))" by (simp add: still_processing_def)
    with assms(2) have "\<not> Suc a < k" by auto
    with lt have k: "k = Suc a" by simp
    from p a30 Inl have "poll e n g0 a s = (Inl x, a, s + 2000)" by (simp add: poll_step)
    with k Inl show ?thesis by simp
  next
    case (Inr g1)
    from Suc.hyps(2) have d: "d = k - Suc a" by simp
    from lt have le: "Suc a \<le> k" by simp
    from Suc.hyps(1) [OF d le Inr, of "s + 2000"] lt
    have "fst (poll e n g1 (Suc a) (s + 2000)) = files_get e n k
           \<and> snd (snd (poll e n g1 (Suc a) (s + 2000))) = s + 2000 * (k - a)"
      by (simp add: Suc_diff_Suc)
    with p a30 Inr show ?thesis by (simp add: poll_step)
  qed
qed

text \<open>
  C7, as the code has it. With the download and the upload done, let \<open>k\<close> be the number
  of the first answer of \<open>ai.files.get\<close> that is not a file in the state PROCESSING, or
  30 when the answers 0 to 29 all are such files. The step then asks again exactly \<open>k\<close>
  times, each time after a wait of 2000 ms (so it waits 2000 * k ms, at most 60000), and
  its outcome is answer number \<open>k\<close>: the exception, if that call threw; the error
  "Gemini file processing failed", if the state is FAILED; the file in every other case,
  also when \<open>k\<close> is 30 and the state is still PROCESSING. No timeout error is raised.
\<close>

theorem uploadPdfFromUrl_polling:
  assumes "fetch e u = Inr response" and "ok response" and "arrayBuffer response = Inr byteLength"
    and "URL_pathname e u = Inr urlPath"
    and "files_upload e u (displayName_of urlPath) = Inr file'"
    and "k \<le> 30"
    and "\<forall>j<k. still_processing (files_get e (file_name file') j)"
    and "k = 30 \<or> \<not> still_processing (files_get e (file_name file') k)"
  shows "uploadPdfFromUrl e u =
           (case files_get e (file_name file') k of
              Inl x \<Rightarrow> Inl x
            | Inr g \<Rightarrow>
                if file_state g = Some ''FAILED''
                then Inl (Error ''Gemini file processing failed'')
                else Inr (g, (byteLength + 512) div 1024),
            2000 * k)"
proof (cases "files_get e (file_name file') 0")
  case (Inl x)
  then have "\<not> still_processing (files_get e (file_name file') 0)"
    by (simp add: still_processing_def)
  with assms(7) have "k = 0" by auto
  with Inl assms(1-5) show ?thesis by (simp add: uploadPdfFromUrl_def Let_def)
next
  case (Inr g0)
  obtain r a s where p: "poll e (file_name file') g0 0 0 = (r, a, s)"
    by (cases "poll e (file_name file') g0 0 0") auto
  from poll_run [OF assms(6) assms(7) assms(8), of 0 g0 0] Inr p
  have r: "r = files_get e (file_name file') k" and s: "s = 2000 * k" by simp_all
  show ?thesis
  proof (cases r)
    case thrown: (Inl x)
    with r have fk: "files_get e (file_name file') k = Inl x" by simp
    from thrown p s have "poll e (file_name file') g0 0 0 = (Inl x, a, 2000 * k)" by simp
    with assms(1-5) Inr fk show ?thesis
      by (simp add: uploadPdfFromUrl_def Let_def)
  next
    case answered: (Inr g)
    with r have fk: "files_get e (file_name file') k = Inr g" by simp
    from answered p s have "poll e (file_name file') g0 0 0 = (Inr g, a, 2000 * k)" by simp
    with assms(1-5) Inr fk show ?thesis
      by (simp add: uploadPdfFromUrl_def Let_def)
  qed
qed

theorem uploadPdfFromUrl_polling_witness:
  "uploadPdfFromUrl stuck_env ''https://x.test/docs/a.pdf'' = (Inr (processing_file, 2), 60000)
   \<and> uploadPdfFromUrl failing_env ''https://x.test/docs/a.pdf''
       = (Inl (Error ''Gemini file processing failed''), 4000)
   \<and> uploadPdfFromUrl scenario_env ''https://x.test/b.pdf'' = (Inr (active_file, 2), 0)"
proof -
  have a: "uploadPdfFromUrl stuck_env ''https://x.test/docs/a.pdf'' = (Inr (processing_file, 2), 60000)"
    using uploadPdfFromUrl_polling [where e = stuck_env and u = "''https://x.test/docs/a.pdf''"
        and response = "\<lparr> ok = True, status = 200, statusText = ''OK'', arrayBuffer = Inr 2048 \<rparr>"
        and byteLength = 2048 and urlPath = "''/docs/a.pdf''" and file' = processing_file and k = 30]
    by (simp add: stuck_env_def processing_file_def still_processing_def)
  have b: "uploadPdfFromUrl failing_env ''https://x.test/docs/a.pdf''
       = (Inl (Error ''Gemini file processing failed''), 4000)"
    using uploadPdfFromUrl_polling [where e = failing_env and u = "''https://x.test/docs/a.pdf''"
        and response = "\<lparr> ok = True, status = 200, statusText = ''OK'', arrayBuffer = Inr 2048 \<rparr>"
        and byteLength = 2048 and urlPath = "''/docs/a.pdf''" and file' = processing_file and k = 2]
    by (simp add: failing_env_def stuck_env_def processing_file_def failed_file_def still_processing_def)
  have c: "uploadPdfFromUrl scenario_env ''https://x.test/b.pdf'' = (Inr (active_file, 2), 0)"
    using uploadPdfFromUrl_polling [where e = scenario_env and u = "''https://x.test/b.pdf''"
        and response = "\<lparr> ok = True, status = 200, statusText = ''OK'', arrayBuffer = Inr 2048 \<rparr>"
        and byteLength = 2048 and urlPath = "''/b.pdf''" and file' = active_file and k = 0]
    by (simp add: scenario_env_def active_file_def still_processing_def)
  show ?thesis by (rule conjI [OF a conjI [OF b c]])
qed

text \<open>
  Against C7 as stated: in \<open>stuck_env\<close> the state is PROCESSING at every call, the
  call number 30 included, and the upload step returns the file instead of an error.
\<close>

theorem upload_timeout_counterexample:
  "uploadPdfFromUrl stuck_env ''https://x.test/docs/a.pdf'' = (Inr (processing_file, 2), 60000)
   \<and> files_get stuck_env (file_name processing_file) 30 = Inr processing_file
   \<and> file_state processing_file = Some ''PROCESSING''"
proof -
  obtain r a s where p: "poll stuck_env (file_name processing_file) processing_file 0 0 = (r, a, s)"
    by (cases "poll stuck_env (file_name processing_file) processing_file 0 0") auto
  have "fst (poll stuck_env (file_name processing_file) processing_file 0 0)
          = files_get stuck_env (file_name processing_file) 30
        \<and> snd (snd (poll stuck_env (file_name processing_file) processing_file 0 0))
          = 0 + 2000 * (30 - 0)"
    by (rule poll_run) (simp_all add: stuck_env_def still_processing_def processing_file_def)
  with p have "poll stuck_env (file_name processing_file) processing_file 0 0
                 = (Inr processing_file, a, 60000)"
    by (simp add: stuck_env_def)
  then have "uploadPdfFromUrl stuck_env ''https://x.test/docs/a.pdf''
               = (Inr (processing_file, 2), 60000)"
    by (simp add: uploadPdfFromUrl_def stuck_env_def Let_def processing_file_def)
  then show ?thesis by (simp add: stuck_env_def processing_file_def)
qed

section \<open>One document never throws\<close>

lemma parse_reply_json_text:
  "parse_reply e text =
     (case json_text text of
        None \<Rightarrow> Inl (Error ''Could not parse JSON from response'')
      | Some j \<Rightarrow> JSON_parse e j)"
  by (simp add: parse_reply_def json_text_def split: option.splits)










lemma try_uploaded:
  assumes "uploaded e u file k uri mimeType"
  shows "analyzePdf_try e prompt u result =
           (case generateContent e model uri mimeType prompt of
              Inl x \<Rightarrow> (result \<lparr> fa_fileSizeKB := k \<rparr>, Some x)
            | Inr t \<Rightarrow>
                (case json_text (reply_text t) of
                   None \<Rightarrow> (result \<lparr> fa_fileSizeKB := k \<rparr>,
                            Some (Error ''Could not parse JSON from response''))
                 | Some j \<Rightarrow>
                     (case JSON_parse e j of
                        Inl x \<Rightarrow> (result \<lparr> fa_fileSizeKB := k \<rparr>, Some x)
                      | Inr parsed \<Rightarrow>
                          (case normalizeResponse parsed of
                             Inl x \<Rightarrow> (result \<lparr> fa_fileSizeKB := k \<rparr>, Some x)
                           | Inr f \<Rightarrow> (assign (result \<lparr> fa_fileSizeKB := k \<rparr>) f, None)))))"
  using assms
  by (simp add: uploaded_def analyzePdf_try_def Let_def parse_reply_json_text reply_text_def
      split: sum.splits option.splits)








lemma analyzePdf_succeeds:
  assumes "uploaded e u file k uri mimeType"
    and "generateContent e model uri mimeType prompt = Inr t"
    and "json_text (reply_text t) = Some j"
    and "JSON_parse e j = Inr parsed"
    and "normalizeResponse parsed = Inr f"
  shows "analyzePdf e prompt u
          = (assign (initial_result u \<lparr> fa_fileSizeKB := k \<rparr>) f)
              \<lparr> fa_processingTimeSec := (elapsed_ms e u + 500) div 1000 \<rparr>"
  using try_uploaded [OF assms(1), of prompt "initial_result u"] assms(2-5)
  by (simp add: analyzePdf_def)




text \<open>The batch ends with an exception at a document whose notes are truthy and not a string.\<close>

lemma analyzeAll_aborts:
  assumes "trim l \<noteq> []" and "\<not> printable_notes (fa_notes (analyzePdf e prompt (trim l)))"
  shows "analyzeAll e prompt (l # urls) = Inl (Error ''result.notes.substring is not a function'')"
  using assms by (simp add: Let_def printable_notes_def)



lemma array_b_uploaded:
  "uploaded array_env ''https://x.test/b.pdf'' active_file 2 ''https://g.test/files/abc''
     ''application/pdf''"
proof -
  have "poll array_env (file_name active_file) active_file 0 0 = (Inr active_file, 0, 0)"
    by (rule poll_stop) (simp add: active_file_def)
  then have "uploadPdfFromUrl array_env ''https://x.test/b.pdf'' = (Inr (active_file, 2), 0)"
    by (simp add: uploadPdfFromUrl_def array_env_def scenario_env_def Let_def active_file_def)
  then show ?thesis by (simp add: uploaded_def active_file_def)
qed

lemma fenced_reply_json: "json_text (reply_text (Some fenced_reply)) = Some ''{}''"
  by (simp add: json_text_def reply_text_def matchJsonFence_def fenced_reply_def fence_def trim_simps)


text \<open>
  A reply whose notes are an array: the document is analysed without an error, and the
  batch ends with an exception when it prints the notes.
\<close>

lemma array_notes_abort:
  "analyzeAll array_env [] [''https://x.test/b.pdf'', ''https://x.test/a.pdf'']
     = Inl (Error ''result.notes.substring is not a function'')"
proof -
  have g: "generateContent array_env model ''https://g.test/files/abc'' ''application/pdf'' []
             = Inr (Some fenced_reply)"
    by (simp add: array_env_def scenario_env_def)
  have j: "JSON_parse array_env ''{}'' = Inr array_notes_reply"
    by (simp add: array_env_def)
  have n: "normalizeResponse array_notes_reply =
     Inr \<lparr> nr_isForm = ''No'', nr_formType = ''N/A'', nr_sensitiveInfo = no_sensitiveInfo,
           nr_sensitiveInfoSummary = ''None'', nr_confidence = 0.5, nr_pageCount = 0,
           nr_notes = JArr [JStr ''n''] \<rparr>"
    by (simp add: normalizeResponse_def array_notes_reply_def sensitiveInfo_of_def
        sensitiveItems_def no_sensitiveInfo_def)
  have "fa_notes (analyzePdf array_env [] ''https://x.test/b.pdf'') = JArr [JStr ''n'']"
    unfolding analyzePdf_succeeds [OF array_b_uploaded g fenced_reply_json j n]
    by (simp add: assign_def)
  then have "\<not> printable_notes (fa_notes (analyzePdf array_env [] (trim ''https://x.test/b.pdf'')))"
    by (simp add: printable_notes_def trim_simps)
  moreover have "trim ''https://x.test/b.pdf'' \<noteq> []" by (simp add: trim_simps)
  ultimately show ?thesis by (rule analyzeAll_aborts [rotated])
qed



section \<open>Reading a line file\<close>

lemma remdups_snoc: "remdups (ys @ [x]) = filter (\<lambda>y. y \<noteq> x) (remdups ys) @ [x]"
  by (induction ys) auto

lemma uniq_first_occurrence:
  "uniq seen xs = seen @ filter (\<lambda>y. y \<notin> set seen) (rev (remdups (rev xs)))"
proof (induction xs arbitrary: seen)
  case Nil
  then show ?case by simp
next
  case (Cons x xs)
  have r: "rev (remdups (rev (x # xs))) = x # filter (\<lambda>y. y \<noteq> x) (rev (remdups (rev xs)))"
    by (simp add: remdups_snoc rev_filter)
  show ?case
  proof (cases "x \<in> set seen")
    case True
    then have "filter (\<lambda>y. y \<notin> set seen) (filter (\<lambda>y. y \<noteq> x) (rev (remdups (rev xs))))
             = filter (\<lambda>y. y \<notin> set seen) (rev (remdups (rev xs)))"
      by (auto intro: filter_cong)
    with True Cons.IH [of seen] r show ?thesis by simp
  next
    case False
    have "filter (\<lambda>y. y \<notin> set (seen @ [x])) (rev (remdups (rev xs)))
        = filter (\<lambda>y. y \<notin> set seen) (filter (\<lambda>y. y \<noteq> x) (rev (remdups (rev xs))))"
      by (auto intro: filter_cong)
    with False Cons.IH [of "seen @ [x]"] r show ?thesis by simp
  qed
qed

lemma uniq_Nil: "uniq [] xs = rev (remdups (rev xs))"
  by (simp add: uniq_first_occurrence)

lemma scenario_lines:
  "url_lines scenario_text = [''https://x.test/a.pdf'', ''https://x.test/b.pdf'']"
  by (simp add: url_lines_def scenario_text_def trim_simps)

lemma repeated_lines:
  "url_lines repeated_text = [''https://x.test/a.pdf'', ''https://x.test/a.pdf'']"
  by (simp add: url_lines_def repeated_text_def trim_simps)

text \<open>
  C9, as the code has it. For a path that ends in ".txt" (in any case), the reader
  returns the trimmed lines that are not empty and do not start with "#", each one once,
  at the place of its first appearance: a line that is repeated is returned once. When no
  line is repeated, the result is exactly those lines in their order; the scenario's text
  gives a.pdf, then b.pdf.
\<close>

theorem readUrlsFromFile_txt:
  assumes "endsWith (toLowerCase filePath) ''.txt''"
  shows "readUrlsFromFile urlPattern filePath content = rev (remdups (rev (url_lines content)))
       \<and> set (readUrlsFromFile urlPattern filePath content) = set (url_lines content)
       \<and> distinct (readUrlsFromFile urlPattern filePath content)
       \<and> (distinct (url_lines content)
            \<longrightarrow> readUrlsFromFile urlPattern filePath content = url_lines content)"
proof -
  have e: "readUrlsFromFile urlPattern filePath content = rev (remdups (rev (url_lines content)))"
    using assms by (simp add: readUrlsFromFile_def url_lines_def uniq_Nil Let_def)
  then show ?thesis by (simp add: distinct_remdups_id)
qed

theorem readUrlsFromFile_txt_witness:
  "readUrlsFromFile no_matches ''urls.TXT'' scenario_text
     = [''https://x.test/a.pdf'', ''https://x.test/b.pdf'']
   \<and> readUrlsFromFile no_matches ''urls.TXT'' repeated_text = [''https://x.test/a.pdf'']"
proof -
  have h: "endsWith (toLowerCase ''urls.TXT'') ''.txt''"
    by (simp add: endsWith_def lower_simps)
  have d: "distinct (url_lines scenario_text)"
    by (simp add: scenario_lines)
  have a: "readUrlsFromFile no_matches ''urls.TXT'' scenario_text
     = [''https://x.test/a.pdf'', ''https://x.test/b.pdf'']"
    using readUrlsFromFile_txt [OF h, of no_matches scenario_text] d
    by (simp add: scenario_lines)
  have b: "readUrlsFromFile no_matches ''urls.TXT'' repeated_text = [''https://x.test/a.pdf'']"
    using readUrlsFromFile_txt [OF h, of no_matches repeated_text]
    by (simp add: repeated_lines)
  show ?thesis by (rule conjI [OF a b])
qed

text \<open>
  Against C9 as stated: a file with the same URL on two lines. The kept lines are two,
  the reader returns one.
\<close>

theorem readUrlsFromFile_txt_counterexample:
  "readUrlsFromFile no_matches ''urls.txt'' repeated_text \<noteq> url_lines repeated_text"
proof -
  have "readUrlsFromFile no_matches ''urls.txt'' repeated_text = [''https://x.test/a.pdf'']"
    by (simp add: readUrlsFromFile_def repeated_text_def endsWith_def lower_simps trim_simps)
  then show ?thesis by (simp add: repeated_lines)
qed

end
